theory Spec2Isabelle
  imports Main "HOL-Library.Sublist" "HOL-Library.AList"
begin

unbundle bit_operations_syntax

section \<open>Python values\<close>

text \<open>
  A Python \<open>bytes\<close> object is a list of 8-bit characters; a Python \<open>str\<close> is a list of
  Unicode code points.  \<open>S\<close> turns an ASCII literal into a \<open>str\<close>.
\<close>

type_synonym bytes = "char list"
type_synonym str = "nat list"

definition S :: "string \<Rightarrow> str" where
  "S s = map of_char s"

text \<open>Exceptions raised by the program or by the library functions it calls.\<close>

datatype error =
    ValueError
  | TypeError
  | IndexError
  | UnicodeDecodeError
  | UnicodeEncodeError
  | FileNotFoundError
  | OverflowError
  | MemoryError

fun ebind :: "error + 'a \<Rightarrow> ('a \<Rightarrow> error + 'b) \<Rightarrow> error + 'b" where
  "ebind (Inl e) f = Inl e"
| "ebind (Inr x) f = f x"

text \<open>
  What the program meets of the interpreter and of the platform, beyond what is written out
  below, is a parameter of the model:
  \<^item> \<open>lower_unicode\<close> is \<open>str.lower\<close> on a string that is not ASCII (the Unicode case
    tables and the rule of the final sigma);
  \<^item> \<open>decimal_digit\<close> is the value of a decimal digit that is not ASCII, which \<open>int\<close> reads
    as it reads \<open>0\<close> to \<open>9\<close>;
  \<^item> \<open>max_str_digits\<close> is the interpreter's limit on the digits of an integer read from
    text, 0 when there is none;
  \<^item> \<open>big_buffer\<close> is what \<open>sock.recv\<close> raises, if anything, when it is asked for more
    than \<open>BUFF_SIZE\<close> bytes: \<open>OverflowError\<close> for a size beyond the platform's, \<open>MemoryError\<close>
    when no buffer of that size can be had;
  \<^item> \<open>netloc_ok\<close> is whether \<open>urlparse\<close> accepts a network location that holds a pair of
    square brackets or a character that is not ASCII (a bracketed host must be an IPv6 or
    IPvFuture address, and the location must keep its shape under NFKC normalisation).
\<close>

record pylib =
  lower_unicode :: "str \<Rightarrow> str"
  decimal_digit :: "nat \<Rightarrow> nat option"
  max_str_digits :: nat
  big_buffer :: "nat \<Rightarrow> error option"
  netloc_ok :: "str \<Rightarrow> bool"

text \<open>\<open>BUFF_SIZE\<close>, \<open>NEWLINE\<close> and \<open>HTTP_REQ_HEADER_END\<close> of the source.\<close>

definition BUFF_SIZE :: nat where
  "BUFF_SIZE = 8192"

definition NEWLINE :: str where
  "NEWLINE = [13, 10]"

definition CRLF :: bytes where
  "CRLF = [CHR 0x0D, CHR 0x0A]"

definition HTTP_REQ_HEADER_END :: bytes where
  "HTTP_REQ_HEADER_END = [CHR 0x0D, CHR 0x0A, CHR 0x0D, CHR 0x0A]"

subsection \<open>Searching and splitting\<close>

text \<open>\<open>xs.find(pat)\<close>: the lowest index at which \<open>pat\<close> occurs, \<open>None\<close> for Python's -1.\<close>

fun find_sub :: "'a list \<Rightarrow> 'a list \<Rightarrow> nat option" where
  "find_sub pat [] = (if pat = [] then Some 0 else None)"
| "find_sub pat (x # xs) =
     (if prefix pat (x # xs) then Some 0 else map_option Suc (find_sub pat xs))"

text \<open>\<open>pat in xs\<close> on strings and bytes.\<close>

definition contains :: "'a list \<Rightarrow> 'a list \<Rightarrow> bool" where
  "contains pat xs = (find_sub pat xs \<noteq> None)"

lemma find_sub_bound: "find_sub pat xs = Some i \<Longrightarrow> i + length pat \<le> length xs"
proof (induction xs arbitrary: i)
  case Nil
  then show ?case by (simp split: if_splits)
next
  case (Cons x xs)
  show ?case
  proof (cases "prefix pat (x # xs)")
    case True
    with Cons.prems have "i = 0" by simp
    with True show ?thesis using prefix_length_le [of pat "x # xs"] by simp
  next
    case False
    with Cons.prems obtain j where "find_sub pat xs = Some j" "i = Suc j" by auto
    with Cons.IH show ?thesis by force
  qed
qed

text \<open>\<open>s.split(sep)\<close> for a non-empty separator: cut at every occurrence, left to right.\<close>

function split_sep :: "'a list \<Rightarrow> 'a list \<Rightarrow> 'a list list" where
  "split_sep sep s =
     (if sep = [] then [s]
      else case find_sub sep s of
             None \<Rightarrow> [s]
           | Some i \<Rightarrow> take i s # split_sep sep (drop (i + length sep) s))"
  by pat_completeness auto
termination
proof (relation "measure (\<lambda>(sep, s). length s)")
  show "wf (measure (\<lambda>(sep, s). length s))" by simp
next
  fix sep s :: "'a list" and i
  assume "sep \<noteq> []" "find_sub sep s = Some i"
  then have "i + length sep \<le> length s" "0 < length sep"
    by (auto dest: find_sub_bound)
  then have "length s - (i + length sep) < length s"
    by arith
  then show "((sep, drop (i + length sep) s), (sep, s)) \<in> measure (\<lambda>(sep, s). length s)"
    by simp
qed

declare split_sep.simps [simp del]

text \<open>\<open>s.split(sep, 1)\<close>: cut at the first occurrence only.\<close>

definition split_sep1 :: "'a list \<Rightarrow> 'a list \<Rightarrow> 'a list list" where
  "split_sep1 sep s =
     (case find_sub sep s of
        None \<Rightarrow> [s]
      | Some i \<Rightarrow> [take i s, drop (i + length sep) s])"

text \<open>\<open>sep.join(xs)\<close>.\<close>

fun join :: "'a list \<Rightarrow> 'a list list \<Rightarrow> 'a list" where
  "join sep [] = []"
| "join sep [x] = x"
| "join sep (x # y # ys) = x @ sep @ join sep (y # ys)"

text \<open>
  The characters \<open>str.split()\<close> and \<open>str.strip()\<close> treat as white space
  (\<open>str.isspace\<close>).
\<close>

definition is_space :: "nat \<Rightarrow> bool" where
  "is_space c \<longleftrightarrow>
     (9 \<le> c \<and> c \<le> 13) \<or> (28 \<le> c \<and> c \<le> 32) \<or> c = 0x85 \<or> c = 0xA0 \<or> c = 0x1680 \<or>
     (0x2000 \<le> c \<and> c \<le> 0x200A) \<or> c = 0x2028 \<or> c = 0x2029 \<or> c = 0x202F \<or>
     c = 0x205F \<or> c = 0x3000"

text \<open>
  \<open>s.split()\<close> without a separator: the maximal runs of non-space characters.
  \<open>cur\<close> is the run being read, reversed.
\<close>

fun split_ws_acc :: "str \<Rightarrow> str \<Rightarrow> str list" where
  "split_ws_acc cur [] = (if cur = [] then [] else [rev cur])"
| "split_ws_acc cur (c # cs) =
     (if is_space c
      then (if cur = [] then split_ws_acc [] cs else rev cur # split_ws_acc [] cs)
      else split_ws_acc (c # cur) cs)"

definition split_ws :: "str \<Rightarrow> str list" where
  "split_ws s = split_ws_acc [] s"

text \<open>
  \<open>s.lower()\<close>.  On an ASCII string the letters A to Z are mapped to a to z; on any other
  string the result is the interpreter's.
\<close>

definition lower_cp :: "nat \<Rightarrow> nat" where
  "lower_cp c = (if 65 \<le> c \<and> c \<le> 90 then c + 32 else c)"

definition lower :: "pylib \<Rightarrow> str \<Rightarrow> str" where
  "lower L s = (if list_all (\<lambda>c. c < 128) s then map lower_cp s else lower_unicode L s)"

subsection \<open>Integers and text\<close>

text \<open>
  \<open>int(s)\<close>.  Every character from 127 on is first replaced: white space by a space, a
  decimal digit by its ASCII digit, anything else by a question mark.  Then the ASCII white
  space (tab to carriage return, and the space) is stripped at both ends, a sign may follow,
  then decimal digits, single underscores allowed between digits.  More than 640 digits that
  exceed the interpreter's limit raise, as everything else that is not a number does.
\<close>

definition to_ascii :: "pylib \<Rightarrow> nat \<Rightarrow> nat" where
  "to_ascii L c =
     (if c < 127 then c
      else if is_space c then 32
      else case decimal_digit L c of Some d \<Rightarrow> 48 + d | None \<Rightarrow> 63)"

definition is_c_space :: "nat \<Rightarrow> bool" where
  "is_c_space c \<longleftrightarrow> (9 \<le> c \<and> c \<le> 13) \<or> c = 32"

definition is_digit :: "nat \<Rightarrow> bool" where
  "is_digit c \<longleftrightarrow> 48 \<le> c \<and> c \<le> 57"

fun int_digits :: "nat \<Rightarrow> bool \<Rightarrow> str \<Rightarrow> nat option" where
  "int_digits acc after_digit [] = (if after_digit then Some acc else None)"
| "int_digits acc after_digit (c # cs) =
     (if 48 \<le> c \<and> c \<le> 57 then int_digits (acc * 10 + (c - 48)) True cs
      else if c = 95 \<and> after_digit then int_digits acc False cs
      else None)"

definition strip :: "str \<Rightarrow> str" where
  "strip s = rev (dropWhile is_c_space (rev (dropWhile is_c_space s)))"

definition too_many_digits :: "pylib \<Rightarrow> str \<Rightarrow> bool" where
  "too_many_digits L ds \<longleftrightarrow>
     640 < length (filter is_digit ds) \<and> 0 < max_str_digits L \<and>
     max_str_digits L < length (filter is_digit ds)"

definition int_of_str :: "pylib \<Rightarrow> str \<Rightarrow> error + int" where
  "int_of_str L s =
     (let t = strip (map (to_ascii L) s);
          (neg, ds) = (case t of
                         c # r \<Rightarrow> if c = 45 then (True, r) else if c = 43 then (False, r) else (False, t)
                       | [] \<Rightarrow> (False, t))
      in if too_many_digits L ds then Inl ValueError
         else case int_digits 0 False ds of
                None \<Rightarrow> Inl ValueError
              | Some n \<Rightarrow> Inr (if neg then - int n else int n))"

text \<open>The decimal text of a number, as an f-string formats it.\<close>

fun str_of_nat :: "nat \<Rightarrow> str" where
  "str_of_nat n = (if n < 10 then [48 + n] else str_of_nat (n div 10) @ [48 + n mod 10])"

declare str_of_nat.simps [simp del]

definition str_of_int :: "int \<Rightarrow> str" where
  "str_of_int i = (if i < 0 then 45 # str_of_nat (nat (- i)) else str_of_nat (nat i))"

subsection \<open>UTF-8\<close>

text \<open>\<open>s.encode("utf-8")\<close>: a surrogate cannot be encoded.\<close>

definition utf8_cp :: "nat \<Rightarrow> nat list option" where
  "utf8_cp c =
     (if c < 0x80 then Some [c]
      else if c < 0x800 then Some [0xC0 + c div 64, 0x80 + c mod 64]
      else if c < 0x10000 then
        (if 0xD800 \<le> c \<and> c \<le> 0xDFFF then None
         else Some [0xE0 + c div 4096, 0x80 + (c div 64) mod 64, 0x80 + c mod 64])
      else if c < 0x110000 then
        Some [0xF0 + c div 262144, 0x80 + (c div 4096) mod 64, 0x80 + (c div 64) mod 64,
              0x80 + c mod 64]
      else None)"

fun utf8_encode :: "str \<Rightarrow> error + bytes" where
  "utf8_encode [] = Inr []"
| "utf8_encode (c # cs) =
     (case utf8_cp c of
        None \<Rightarrow> Inl UnicodeEncodeError
      | Some bs \<Rightarrow> ebind (utf8_encode cs) (\<lambda>r. Inr (map char_of bs @ r)))"

text \<open>
  The decoder on byte values: one item for every code point read, \<open>None\<close> for every
  maximal ill-formed part.
\<close>

definition is_cont :: "nat \<Rightarrow> bool" where
  "is_cont b \<longleftrightarrow> 0x80 \<le> b \<and> b \<le> 0xBF"

definition second_ok :: "nat \<Rightarrow> nat \<Rightarrow> bool" where
  "second_ok b0 b1 =
     (if b0 = 0xE0 then 0xA0 \<le> b1 \<and> b1 \<le> 0xBF
      else if b0 = 0xED then 0x80 \<le> b1 \<and> b1 \<le> 0x9F
      else if b0 = 0xF0 then 0x90 \<le> b1 \<and> b1 \<le> 0xBF
      else if b0 = 0xF4 then 0x80 \<le> b1 \<and> b1 \<le> 0x8F
      else is_cont b1)"

fun utf8_items :: "nat list \<Rightarrow> nat option list" where
  "utf8_items [] = []"
| "utf8_items (b0 # bs) =
     (if b0 < 0x80 then Some b0 # utf8_items bs
      else if 0xC2 \<le> b0 \<and> b0 \<le> 0xDF then
        (case bs of
           [] \<Rightarrow> [None]
         | b1 # bs1 \<Rightarrow>
             if is_cont b1 then Some ((b0 - 0xC0) * 64 + (b1 - 0x80)) # utf8_items bs1
             else None # utf8_items bs)
      else if 0xE0 \<le> b0 \<and> b0 \<le> 0xEF then
        (case bs of
           [] \<Rightarrow> [None]
         | b1 # bs1 \<Rightarrow>
             if \<not> second_ok b0 b1 then None # utf8_items bs
             else (case bs1 of
                     [] \<Rightarrow> [None]
                   | b2 # bs2 \<Rightarrow>
                       if is_cont b2
                       then Some ((b0 - 0xE0) * 4096 + (b1 - 0x80) * 64 + (b2 - 0x80))
                              # utf8_items bs2
                       else None # utf8_items bs1))
      else if 0xF0 \<le> b0 \<and> b0 \<le> 0xF4 then
        (case bs of
           [] \<Rightarrow> [None]
         | b1 # bs1 \<Rightarrow>
             if \<not> second_ok b0 b1 then None # utf8_items bs
             else (case bs1 of
                     [] \<Rightarrow> [None]
                   | b2 # bs2 \<Rightarrow>
                       if \<not> is_cont b2 then None # utf8_items bs1
                       else (case bs2 of
                               [] \<Rightarrow> [None]
                             | b3 # bs3 \<Rightarrow>
                                 if is_cont b3
                                 then Some ((b0 - 0xF0) * 262144 + (b1 - 0x80) * 4096 +
                                            (b2 - 0x80) * 64 + (b3 - 0x80))
                                        # utf8_items bs3
                                 else None # utf8_items bs2)))
      else None # utf8_items bs)"

text \<open>\<open>b.decode("utf-8")\<close>: strict, the first ill-formed part raises.\<close>

definition utf8_decode :: "bytes \<Rightarrow> error + str" where
  "utf8_decode b =
     (case those (utf8_items (map of_char b)) of
        None \<Rightarrow> Inl UnicodeDecodeError
      | Some s \<Rightarrow> Inr s)"

text \<open>\<open>b.decode("utf-8", "replace")\<close>: every ill-formed part becomes U+FFFD.\<close>

definition utf8_decode_replace :: "nat list \<Rightarrow> str" where
  "utf8_decode_replace b = map (\<lambda>i. case i of None \<Rightarrow> 0xFFFD | Some c \<Rightarrow> c) (utf8_items b)"

section \<open>The socket\<close>

text \<open>
  A connection is the list of the segments still to arrive.  A read of at most \<open>n\<close> bytes
  returns at most \<open>n\<close> bytes of the first segment and leaves the rest of it pending; it
  returns \<open>b""\<close> when \<open>n\<close> is 0 and when the peer has closed (no segment left).
\<close>

type_synonym sock = "bytes list"

fun sock_read :: "nat \<Rightarrow> sock \<Rightarrow> bytes \<times> sock" where
  "sock_read n [] = ([], [])"
| "sock_read n (c # cs) =
     (if n = 0 then ([], c # cs)
      else if c = [] then sock_read n cs
      else if length c \<le> n then (c, cs)
      else (take n c, drop n c # cs))"

text \<open>
  \<open>sock.recv(n)\<close>: the program has the memory for its reads of \<open>BUFF_SIZE\<close> bytes; for a
  larger size the platform may raise instead of reading.
\<close>

definition recv :: "pylib \<Rightarrow> nat \<Rightarrow> sock \<Rightarrow> error + (bytes \<times> sock)" where
  "recv L n s =
     (if n \<le> BUFF_SIZE then Inr (sock_read n s)
      else case big_buffer L n of
             Some e \<Rightarrow> Inl e
           | None \<Rightarrow> Inr (sock_read n s))"

definition pending :: "sock \<Rightarrow> nat" where
  "pending s = sum_list (map (\<lambda>c. Suc (length c)) s)"

lemma sock_read_pending:
  "sock_read n s = (d, s') \<Longrightarrow> d \<noteq> [] \<Longrightarrow> pending s' < pending s"
proof (induction s arbitrary: d s')
  case Nil
  then show ?case by simp
next
  case (Cons c cs)
  show ?case
  proof (cases "n = 0")
    case True
    with Cons.prems show ?thesis by simp
  next
    case n: False
    show ?thesis
    proof (cases "c = []")
      case True
      with n Cons.prems have "sock_read n cs = (d, s')" by simp
      from Cons.IH [OF this Cons.prems(2)] show ?thesis by (simp add: pending_def)
    next
      case False
      with n Cons.prems show ?thesis
        by (auto simp: pending_def split: if_splits)
    qed
  qed
qed

lemma recv_pending:
  "recv L n s = Inr (d, s') \<Longrightarrow> d \<noteq> [] \<Longrightarrow> pending s' < pending s"
  by (auto simp: recv_def dest: sock_read_pending split: if_splits option.splits)

section \<open>The request and the framer\<close>

text \<open>The class \<open>Request\<close>; \<open>headers\<close> is a dictionary, kept in insertion order.\<close>

record request =
  req_method :: str
  req_path :: str
  req_headers :: "(str \<times> str) list"
  req_content :: str

text \<open>
  \<open>Request.__init__\<close>: the start line is split at white space and its first two fields are
  unpacked, which raises \<open>ValueError\<close> when there are fewer than two.
\<close>

definition Request :: "str \<Rightarrow> (str \<times> str) list \<Rightarrow> str \<Rightarrow> error + request" where
  "Request start_line headers content =
     (case split_ws start_line of
        m # p # _ \<Rightarrow>
          Inr \<lparr>req_method = m, req_path = drop 1 p, req_headers = headers,
               req_content = content\<rparr>
      | _ \<Rightarrow> Inl ValueError)"

text \<open>\<open>to_tuple\<close>: unpacking \<open>kvstr.split(":", 1)\<close> raises when the line has no colon.\<close>

definition to_tuple :: "pylib \<Rightarrow> str \<Rightarrow> error + (str \<times> str)" where
  "to_tuple L kvstr =
     (case split_sep1 [58] kvstr of
        [k, v] \<Rightarrow> Inr (lower L k, v)
      | _ \<Rightarrow> Inl ValueError)"

text \<open>\<open>dict(map(to_tuple, lines))\<close>: the first line that fails raises; a later key overwrites.\<close>

fun header_dict ::
  "pylib \<Rightarrow> (str \<times> str) list \<Rightarrow> str list \<Rightarrow> error + (str \<times> str) list" where
  "header_dict L d [] = Inr d"
| "header_dict L d (l # ls) =
     ebind (to_tuple L l) (\<lambda>(k, v). header_dict L (AList.update k v d) ls)"

text \<open>
  The first loop of \<open>recv_until_crlfs\<close>.  It returns \<open>header_data\<close>, \<open>content\<close>,
  \<open>content_bytes_read\<close> and the connection.
\<close>

function read_head ::
  "pylib \<Rightarrow> bytes \<Rightarrow> sock \<Rightarrow> error + (bytes \<times> bytes \<times> nat \<times> sock)" where
  "read_head L header_data sock =
     (case recv L BUFF_SIZE sock of
        Inl e \<Rightarrow> Inl e
      | Inr (data, sock') \<Rightarrow>
          if data = [] then Inr (header_data, [], 0, sock')
          else (case find_sub HTTP_REQ_HEADER_END data of
                  Some header_end_idx \<Rightarrow>
                    Inr (header_data @ take header_end_idx data,
                         drop (header_end_idx + 4) data,
                         nat (max 0 (int (length data) - int header_end_idx - 4)),
                         sock')
                | None \<Rightarrow> read_head L (header_data @ data) sock'))"
  by pat_completeness auto
termination
  by (relation "measure (\<lambda>(L, h, s). pending s)") (auto dest: recv_pending)

declare read_head.simps [simp del]

text \<open>The loop that reads to the end of the stream when no length was declared.\<close>

function read_rest :: "pylib \<Rightarrow> bytes \<Rightarrow> sock \<Rightarrow> error + (bytes \<times> sock)" where
  "read_rest L content sock =
     (case recv L BUFF_SIZE sock of
        Inl e \<Rightarrow> Inl e
      | Inr (data, sock') \<Rightarrow>
          if data = [] then Inr (content, sock') else read_rest L (content @ data) sock')"
  by pat_completeness auto
termination
  by (relation "measure (\<lambda>(L, c, s). pending s)") (auto dest: recv_pending)

declare read_rest.simps [simp del]

text \<open>
  The body of \<open>recv_until_crlfs\<close> after the first loop: a further read happens only when
  \<open>content_bytes_read\<close> is not 0.
\<close>

definition read_body ::
  "pylib \<Rightarrow> (str \<times> str) list \<Rightarrow> bytes \<Rightarrow> nat \<Rightarrow> sock \<Rightarrow> error + (bytes \<times> sock)" where
  "read_body L header_kvs content content_bytes_read sock =
     (if content_bytes_read \<noteq> 0 then
        (case map_of header_kvs (S ''content-length'') of
           None \<Rightarrow> read_rest L content sock
         | Some v \<Rightarrow>
             ebind (int_of_str L v) (\<lambda>content_len.
               let to_recv = max 0 (content_len - int content_bytes_read) in
               ebind (recv L (nat to_recv) sock) (\<lambda>(extra, sock').
                 Inr (content @ extra, sock'))))
      else Inr (content, sock))"

definition recv_until_crlfs :: "pylib \<Rightarrow> sock \<Rightarrow> error + request" where
  "recv_until_crlfs L sock =
     ebind (read_head L [] sock) (\<lambda>(header_data, content, content_bytes_read, sock1).
       ebind (utf8_decode header_data) (\<lambda>headers.
         let header_list = split_sep NEWLINE headers in
         ebind (header_dict L [] (drop 1 header_list)) (\<lambda>header_kvs.
           ebind (read_body L header_kvs content content_bytes_read sock1) (\<lambda>(content', sock2).
             ebind (utf8_decode content') (\<lambda>text.
               Request (hd header_list) header_kvs text)))))"

section \<open>Files\<close>

text \<open>
  The file system is what the program sees of it: a path names a file or nothing; a file has
  its mode bits, and what reading it in text mode and in binary mode returns.
\<close>

record file_node =
  st_mode :: nat
  text_contents :: "error + str"
  binary_contents :: "error + bytes"

type_synonym filesystem = "str \<Rightarrow> file_node option"

definition get_file_contents :: "filesystem \<Rightarrow> str \<Rightarrow> error + str" where
  "get_file_contents fs file_name =
     (case fs file_name of None \<Rightarrow> Inl FileNotFoundError | Some f \<Rightarrow> text_contents f)"

definition get_file_binary_contents :: "filesystem \<Rightarrow> str \<Rightarrow> error + bytes" where
  "get_file_binary_contents fs file_name =
     (case fs file_name of None \<Rightarrow> Inl FileNotFoundError | Some f \<Rightarrow> binary_contents f)"

text \<open>\<open>S_IROTH\<close> is the bit 4 of the mode.\<close>

definition has_permission_other :: "filesystem \<Rightarrow> str \<Rightarrow> error + bool" where
  "has_permission_other fs file_name =
     (case fs file_name of
        None \<Rightarrow> Inl FileNotFoundError
      | Some f \<Rightarrow> Inr (0 < (4 AND st_mode f)))"

definition file_exists :: "filesystem \<Rightarrow> str \<Rightarrow> bool" where
  "file_exists fs file_name = (fs file_name \<noteq> None)"

definition binary_type_files :: "str list" where
  "binary_type_files =
     map S [''jpg'', ''jpeg'', ''png'', ''gif'', ''pdf'', ''mp3'', ''wav'', ''avi'', ''mp4'',
            ''mov'']"

definition should_return_binary :: "str \<Rightarrow> bool" where
  "should_return_binary file_extension = (file_extension \<in> set binary_type_files)"

definition mime_types :: "(str \<times> str) list" where
  "mime_types =
     map (\<lambda>(k, v). (S k, S v))
       [(''html'', ''text/html''), (''css'', ''text/css''), (''js'', ''application/javascript''),
        (''json'', ''application/json''), (''jpg'', ''image/jpeg''), (''jpeg'', ''image/jpeg''),
        (''png'', ''image/png''), (''gif'', ''image/gif''), (''pdf'', ''application/pdf''),
        (''mp4'', ''video/mp4''), (''ogg'', ''audio/ogg''), (''wav'', ''audio/wav''),
        (''txt'', ''text/plain''), (''mp3'', ''audio/mp3'')]"

definition get_file_mime_type :: "str \<Rightarrow> str" where
  "get_file_mime_type file_extension =
     (case map_of mime_types file_extension of
        None \<Rightarrow> S ''text/plain''
      | Some m \<Rightarrow> m)"

section \<open>The response builder\<close>

text \<open>What an f-string is given: a string, an integer or \<open>None\<close>.\<close>

datatype hval = HStr str | HInt int | HNone

fun fmt :: "hval \<Rightarrow> str" where
  "fmt (HStr s) = s"
| "fmt (HInt i) = str_of_int i"
| "fmt HNone = S ''None''"

record ResponseBuilder =
  headers :: "str list"
  status :: "str option"
  content :: "bytes option"

definition new_builder :: ResponseBuilder where
  "new_builder = \<lparr>headers = [], status = None, content = None\<rparr>"

definition add_header :: "str \<Rightarrow> hval \<Rightarrow> ResponseBuilder \<Rightarrow> ResponseBuilder" where
  "add_header header_key header_value b =
     b\<lparr>headers := headers b @ [header_key @ S '': '' @ fmt header_value]\<rparr>"

definition set_status :: "hval \<Rightarrow> str \<Rightarrow> ResponseBuilder \<Rightarrow> ResponseBuilder" where
  "set_status status_code status_message b =
     b\<lparr>status := Some (S ''HTTP/1.1 '' @ fmt status_code @ S '' '' @ status_message)\<rparr>"

text \<open>The argument of \<open>set_content\<close>: text, which is encoded, or bytes, kept as they are.\<close>

datatype pycontent = Text str | Bytes bytes

fun len :: "pycontent \<Rightarrow> nat" where
  "len (Text s) = length s"
| "len (Bytes b) = length b"

fun set_content :: "pycontent \<Rightarrow> ResponseBuilder \<Rightarrow> error + ResponseBuilder" where
  "set_content (Bytes c) b = Inr (b\<lparr>content := Some c\<rparr>)"
| "set_content (Text c) b = ebind (utf8_encode c) (\<lambda>e. Inr (b\<lparr>content := Some e\<rparr>))"

text \<open>
  \<open>build\<close>: adding \<open>NEWLINE\<close> to a status that is still \<open>None\<close> raises \<open>TypeError\<close>; the content
  is appended when it is set and not empty.
\<close>

definition build :: "ResponseBuilder \<Rightarrow> error + bytes" where
  "build b =
     (case status b of
        None \<Rightarrow> Inl TypeError
      | Some st \<Rightarrow>
          ebind (utf8_encode (st @ NEWLINE @ join NEWLINE (headers b) @ NEWLINE @ NEWLINE))
            (\<lambda>out. case content b of
                      None \<Rightarrow> Inr out
                    | Some c \<Rightarrow> if c \<noteq> [] then Inr (out @ c) else Inr out))"

section \<open>Library functions of \<open>urllib.parse\<close>\<close>

definition is_hex :: "nat \<Rightarrow> bool" where
  "is_hex c \<longleftrightarrow> (48 \<le> c \<and> c \<le> 57) \<or> (65 \<le> c \<and> c \<le> 70) \<or> (97 \<le> c \<and> c \<le> 102)"

definition hex_val :: "nat \<Rightarrow> nat" where
  "hex_val c = (if c \<le> 57 then c - 48 else if c \<le> 70 then c - 55 else c - 87)"

text \<open>\<open>unquote_to_bytes\<close> on ASCII text: \<open>%XY\<close> with two hex digits is one byte.\<close>

fun unquote_to_bytes :: "nat list \<Rightarrow> nat list" where
  "unquote_to_bytes (c # h1 # h2 # r) =
     (if c = 37 \<and> is_hex h1 \<and> is_hex h2 then (16 * hex_val h1 + hex_val h2) # unquote_to_bytes r
      else c # unquote_to_bytes (h1 # h2 # r))"
| "unquote_to_bytes (c # cs) = c # unquote_to_bytes cs"
| "unquote_to_bytes [] = []"

text \<open>
  \<open>unquote\<close>: every maximal ASCII run is percent-decoded and read as UTF-8 with
  replacement; the other characters stay.  \<open>run\<close> is the ASCII run being read, reversed.
\<close>

fun unquote_acc :: "str \<Rightarrow> str \<Rightarrow> str" where
  "unquote_acc run [] = utf8_decode_replace (unquote_to_bytes (rev run))"
| "unquote_acc run (c # cs) =
     (if c < 128 then unquote_acc (c # run) cs
      else utf8_decode_replace (unquote_to_bytes (rev run)) @ c # unquote_acc [] cs)"

definition unquote :: "str \<Rightarrow> str" where
  "unquote s = (if 37 \<in> set s then unquote_acc [] s else s)"

definition plus_to_space :: "str \<Rightarrow> str" where
  "plus_to_space s = map (\<lambda>c. if c = 43 then 32 else c) s"

definition unquote_plus :: "str \<Rightarrow> str" where
  "unquote_plus s = unquote (plus_to_space s)"

text \<open>\<open>quote_plus\<close>: letters, digits and \<open>_.-~\<close> stay, a space becomes \<open>+\<close>, any other byte
  of the UTF-8 encoding becomes \<open>%XY\<close>.\<close>

definition always_safe :: "nat \<Rightarrow> bool" where
  "always_safe c \<longleftrightarrow>
     (65 \<le> c \<and> c \<le> 90) \<or> (97 \<le> c \<and> c \<le> 122) \<or> (48 \<le> c \<and> c \<le> 57) \<or>
     c = 95 \<or> c = 46 \<or> c = 45 \<or> c = 126"

definition hex_digit :: "nat \<Rightarrow> nat" where
  "hex_digit d = (if d < 10 then 48 + d else 55 + d)"

definition quote_byte :: "nat \<Rightarrow> str" where
  "quote_byte b =
     (if always_safe b then [b]
      else if b = 32 then [43]
      else [37, hex_digit (b div 16), hex_digit (b mod 16)])"

definition quote_plus :: "str \<Rightarrow> error + str" where
  "quote_plus s =
     ebind (utf8_encode s) (\<lambda>bs. Inr (concat (map (\<lambda>b. quote_byte (of_char b)) bs)))"

text \<open>
  \<open>urlparse(url).query\<close>.  Leading control characters and spaces are stripped, tabs and line
  breaks removed; a scheme and a network location are split off; the query is what lies
  between the first \<open>?\<close> and the first \<open>#\<close>.  A network location with one square bracket
  and not the other raises \<open>ValueError\<close>; so does one with both brackets, or with a
  character that is not ASCII, that the interpreter does not accept.
\<close>

definition scheme_char :: "nat \<Rightarrow> bool" where
  "scheme_char c \<longleftrightarrow>
     (65 \<le> c \<and> c \<le> 90) \<or> (97 \<le> c \<and> c \<le> 122) \<or> (48 \<le> c \<and> c \<le> 57) \<or>
     c = 43 \<or> c = 45 \<or> c = 46"

definition ascii_alpha :: "nat \<Rightarrow> bool" where
  "ascii_alpha c \<longleftrightarrow> (65 \<le> c \<and> c \<le> 90) \<or> (97 \<le> c \<and> c \<le> 122)"

definition strip_scheme :: "str \<Rightarrow> str" where
  "strip_scheme url =
     (case find_sub [58] url of
        None \<Rightarrow> url
      | Some i \<Rightarrow>
          if 0 < i \<and> list_all ascii_alpha (take 1 url) \<and> list_all scheme_char (take i url)
          then drop (i + 1) url else url)"

definition split_netloc :: "pylib \<Rightarrow> str \<Rightarrow> error + str" where
  "split_netloc L url =
     (if take 2 url = [47, 47] then
        (let rest = drop 2 url;
             netloc = takeWhile (\<lambda>c. c \<noteq> 47 \<and> c \<noteq> 63 \<and> c \<noteq> 35) rest
         in if (91 \<in> set netloc) \<noteq> (93 \<in> set netloc) then Inl ValueError
            else if (91 \<in> set netloc \<or> list_ex (\<lambda>c. 128 \<le> c) netloc) \<and> \<not> netloc_ok L netloc
            then Inl ValueError
            else Inr (drop (length netloc) rest))
      else Inr url)"

definition url_query :: "pylib \<Rightarrow> str \<Rightarrow> error + str" where
  "url_query L url =
     (let url1 = filter (\<lambda>c. c \<noteq> 9 \<and> c \<noteq> 10 \<and> c \<noteq> 13) (dropWhile (\<lambda>c. c \<le> 32) url)
      in ebind (split_netloc L (strip_scheme url1)) (\<lambda>url2.
           let url3 = (case find_sub [35] url2 of None \<Rightarrow> url2 | Some i \<Rightarrow> take i url2)
           in Inr (case find_sub [63] url3 of None \<Rightarrow> [] | Some i \<Rightarrow> drop (i + 1) url3)))"

text \<open>
  \<open>parse_qsl\<close> with its defaults: the fields are separated by \<open>&\<close>; a field without \<open>=\<close>
  or with an empty value is dropped.
\<close>

definition parse_qsl :: "str \<Rightarrow> (str \<times> str) list" where
  "parse_qsl qs =
     concat (map (\<lambda>name_value.
                    case split_sep1 [61] name_value of
                      [n, v] \<Rightarrow>
                        if v \<noteq> [] then [(unquote (plus_to_space n), unquote (plus_to_space v))]
                        else []
                    | _ \<Rightarrow> [])
                 (split_sep [38] qs))"

text \<open>\<open>parse_qs\<close>: a dictionary from each name to the list of its values, in order.\<close>

fun parse_qs_acc :: "(str \<times> str list) list \<Rightarrow> (str \<times> str) list \<Rightarrow> (str \<times> str list) list" where
  "parse_qs_acc d [] = d"
| "parse_qs_acc d ((n, v) # ps) =
     parse_qs_acc
       (AList.update n ((case map_of d n of None \<Rightarrow> [] | Some vs \<Rightarrow> vs) @ [v]) d) ps"

definition parse_qs :: "str \<Rightarrow> (str \<times> str list) list" where
  "parse_qs qs = parse_qs_acc [] (parse_qsl qs)"

text \<open>\<open>params.get(key, [''])[0]\<close>.\<close>

definition get_first :: "(str \<times> str list) list \<Rightarrow> str \<Rightarrow> error + str" where
  "get_first params k =
     (case (case map_of params k of None \<Rightarrow> [[]] | Some vs \<Rightarrow> vs) of
        [] \<Rightarrow> Inl IndexError
      | v # _ \<Rightarrow> Inr v)"

section \<open>The handlers\<close>

text \<open>\<open>parse_post_request\<close>: every pair is unpacked into exactly a key and a value.\<close>

fun table_rows :: "str list list \<Rightarrow> error + str list" where
  "table_rows [] = Inr []"
| "table_rows (a # as) =
     (case a of
        [key, val] \<Rightarrow>
          ebind (table_rows as) (\<lambda>rows.
            Inr ((S ''<tr><td>'' @ key @ S ''</td><td>'' @ val @ S ''</td></tr>'') # rows))
      | _ \<Rightarrow> Inl ValueError)"

definition parse_post_request :: "str \<Rightarrow> error + str" where
  "parse_post_request c =
     ebind (table_rows (map (split_sep [61]) (split_sep [38] c))) (\<lambda>table_rows.
       Inr (S ''<table>'' @ concat table_rows @ S ''</table>''))"

text \<open>\<open>build_url\<close> returns \<open>None\<close> for a selector that is neither of the two.\<close>

definition build_url :: "pylib \<Rightarrow> str \<Rightarrow> error + hval" where
  "build_url L query =
     ebind (url_query L query) (\<lambda>q.
       let params = parse_qs q in
       ebind (get_first params (S ''text'')) (\<lambda>text.
         ebind (get_first params (S ''selector'')) (\<lambda>selector.
           if selector = S ''youtube'' then
             ebind (quote_plus text) (\<lambda>t.
               Inr (HStr (S ''https://www.youtube.com/results?search_query='' @ t)))
           else if selector = S ''google'' then
             ebind (quote_plus text) (\<lambda>t.
               Inr (HStr (S ''https://www.google.com/search?q='' @ t)))
           else Inr HNone)))"

text \<open>
  Every handler fills a builder and returns \<open>builder.build()\<close>; the builder it has filled
  is given its own name here, so that a status and the headers can be spoken of.  The
  \<open>print\<close> calls of the handlers write to the console and are left out.
\<close>

definition get_request_builder ::
  "pylib \<Rightarrow> filesystem \<Rightarrow> request \<Rightarrow> error + ResponseBuilder" where
  "get_request_builder L fs request =
     (if contains (S ''redirect'') (req_path request) then
        ebind (build_url L (req_path request)) (\<lambda>url.
          Inr (add_header (S ''Location'') url
                 (set_status (HStr (S ''307'')) (S ''Redirect'') new_builder)))
      else if \<not> file_exists fs (req_path request) then
        ebind (get_file_contents fs (S ''404.html'')) (\<lambda>c.
          ebind (set_content (Text c)
                   (set_status (HStr (S ''404'')) (S ''NOT FOUND'') new_builder)) (\<lambda>b.
            Inr (add_header (S ''Connection'') (HStr (S ''close'')) b)))
      else
        ebind (has_permission_other fs (req_path request)) (\<lambda>permitted.
          if \<not> permitted then
            ebind (get_file_contents fs (S ''403.html'')) (\<lambda>c.
              ebind (set_content (Text c)
                       (set_status (HStr (S ''403'')) (S ''FORBIDDEN'') new_builder)) (\<lambda>b.
                Inr (add_header (S ''Connection'') (HStr (S ''close'')) b)))
          else
            ebind (if should_return_binary (last (split_sep [46] (req_path request)))
                   then ebind (get_file_binary_contents fs (req_path request))
                          (\<lambda>c. Inr (Bytes c))
                   else ebind (get_file_contents fs (req_path request))
                          (\<lambda>c. Inr (Text c))) (\<lambda>fileContents.
              let mimeType = get_file_mime_type (last (split_sep [46] (req_path request)))
              in set_content fileContents
                   (add_header (S ''Content-Length'') (HInt (int (len fileContents)))
                      (add_header (S ''Connection'') (HStr (S ''close''))
                         (add_header (S ''Content-Type'') (HStr mimeType)
                            (set_status (HStr (S ''200'')) (S ''OK'') new_builder)))))))"

definition get_request :: "pylib \<Rightarrow> filesystem \<Rightarrow> request \<Rightarrow> error + bytes" where
  "get_request L fs request = ebind (get_request_builder L fs request) build"

definition post_request_builder :: "request \<Rightarrow> error + ResponseBuilder" where
  "post_request_builder request =
     (let unquoted_content = unquote_plus (req_content request) in
      ebind (parse_post_request unquoted_content) (\<lambda>fileContents.
        set_content (Text fileContents)
          (add_header (S ''Content-Length'') (HInt (int (length fileContents)))
             (add_header (S ''Allow'') (HStr (S ''POST''))
                (set_status (HStr (S ''200'')) (S ''OK'') new_builder)))))"

definition post_request :: "request \<Rightarrow> error + bytes" where
  "post_request request = ebind (post_request_builder request) build"

definition head_request_builder :: "filesystem \<Rightarrow> request \<Rightarrow> error + ResponseBuilder" where
  "head_request_builder fs request =
     ebind (if \<not> file_exists fs (req_path request)
            then Inr (set_status (HStr (S ''404'')) (S ''NOT FOUND'')
                        (set_status (HStr (S ''200'')) (S ''OK'') new_builder))
            else ebind (has_permission_other fs (req_path request)) (\<lambda>permitted.
                   if \<not> permitted
                   then Inr (set_status (HStr (S ''403'')) (S ''FORBIDDEN'')
                               (set_status (HStr (S ''200'')) (S ''OK'') new_builder))
                   else Inr (set_status (HStr (S ''200'')) (S ''OK'') new_builder))) (\<lambda>b.
       Inr (add_header (S ''Connection'') (HStr (S ''close''))
              (add_header (S ''Allow'') (HStr (S ''HEAD'')) b)))"

definition head_request :: "filesystem \<Rightarrow> request \<Rightarrow> error + bytes" where
  "head_request fs request = ebind (head_request_builder fs request) build"

definition method_not_allowed :: "error + bytes" where
  "method_not_allowed =
     build (add_header (S ''Connection'') (HStr (S ''close''))
              (set_status (HStr (S ''405'')) (S ''METHOD NOT ALLOWED'') new_builder))"

definition process_response :: "pylib \<Rightarrow> filesystem \<Rightarrow> request \<Rightarrow> error + bytes" where
  "process_response L fs request =
     (if req_method request = S ''GET'' then get_request L fs request
      else if req_method request = S ''POST'' then post_request request
      else if req_method request = S ''HEAD'' then head_request fs request
      else method_not_allowed)"

section \<open>Sequences of builder operations\<close>




definition has_header :: "str \<Rightarrow> ResponseBuilder \<Rightarrow> bool" where
  "has_header k b = list_ex (prefix (k @ S '': '')) (headers b)"










section \<open>The framer on concrete streams\<close>

lemmas framer_eval =
  recv_until_crlfs_def read_head.simps read_body_def read_rest.simps recv_def BUFF_SIZE_def
  HTTP_REQ_HEADER_END_def CRLF_def utf8_decode_def split_sep.simps NEWLINE_def to_tuple_def
  split_sep1_def lower_def lower_cp_def Request_def split_ws_def is_space_def S_def
  int_of_str_def strip_def to_ascii_def is_c_space_def is_digit_def too_many_digits_def

text \<open>
  C1.  A request that declares \<open>Content-Length: 3\<close> arrives in two segments: the header block
  with its terminator, then the three bytes of the body.  The claim has the framer read
  the three remaining bytes and return a body of the declared length.  The framer returns
  an empty body: no byte of the body came with the headers, \<open>content_bytes_read\<close> is 0, and
  the read that the length header calls for is never issued.
\<close>

theorem recv_until_crlfs_body_after_headers:
  "recv_until_crlfs L
     [''POST /f HTTP/1.1'' @ CRLF @ ''Content-Length: 3'' @ HTTP_REQ_HEADER_END, ''abc'']
   = Inr \<lparr>req_method = S ''POST'', req_path = S ''f'',
          req_headers = [(S ''content-length'', S '' 3'')], req_content = []\<rparr>"
  by (simp add: framer_eval)

text \<open>
  C2.  The header terminator straddles two segments: the first ends with CR LF CR, the second
  is the final LF.  The claim has the framer find the terminator in the accumulated bytes.
  The framer looks for it in each segment alone, finds it in neither, reads on to the end of
  the stream with the terminator inside \<open>header_data\<close>, and then fails on the empty header
  line that the terminator leaves behind.
\<close>

theorem recv_until_crlfs_terminator_straddles:
  "read_head L []
     [''GET /a HTTP/1.1'' @ CRLF @ ''Host: x'' @ [CHR 0x0D, CHR 0x0A, CHR 0x0D], [CHR 0x0A]]
   = Inr (''GET /a HTTP/1.1'' @ CRLF @ ''Host: x'' @ HTTP_REQ_HEADER_END, [], 0, []) \<and>
   recv_until_crlfs L
     [''GET /a HTTP/1.1'' @ CRLF @ ''Host: x'' @ [CHR 0x0D, CHR 0x0A, CHR 0x0D], [CHR 0x0A]]
   = Inl ValueError"
  by (simp add: framer_eval)

text \<open>
  C8.  The whole header block of a request arrives in one read, with a mixed-case header name
  and a value that holds a colon; the two bytes of the declared body arrive in the next
  segment.  The keys are lower-case and the value is all that follows the first colon, as
  the claim says, but the body is empty, not the two bytes of the declared length.
\<close>

theorem recv_until_crlfs_one_read_headers:
  "recv_until_crlfs L
     [''PUT /up HTTP/1.1'' @ CRLF @ ''Host: h:80'' @ CRLF @ ''Content-LENGTH: 2''
        @ HTTP_REQ_HEADER_END, ''hi'']
   = Inr \<lparr>req_method = S ''PUT'', req_path = S ''up'',
          req_headers = [(S ''host'', S '' h:80''), (S ''content-length'', S '' 2'')],
          req_content = []\<rparr>"
  by (simp add: framer_eval)

text \<open>
  C9.  A stream whose start line is empty, followed by a well-formed header line.  The claim
  has the framer signal a malformed request instead of letting an exception escape.  The
  exception of \<open>Request.__init__\<close>, which unpacks two fields from none, leaves the framer.
\<close>

theorem recv_until_crlfs_empty_start_line_raises:
  "\<forall>L. recv_until_crlfs L [CRLF @ ''Host: x'' @ HTTP_REQ_HEADER_END] = Inl ValueError"
  by (simp add: framer_eval)

text \<open>
  C9, as the code has it.  Whenever the first line of the decoded header block is empty, the
  framer returns no request: an exception leaves it, whatever the rest of the stream is.  When
  the header lines parse, the body is read and the body decodes, that exception is the
  \<open>ValueError\<close> of \<open>Request.__init__\<close>.
\<close>

theorem recv_until_crlfs_empty_start_line:
  assumes "read_head L [] sock = Inr (header_data, c, n, sock1)"
    and "utf8_decode header_data = Inr hs"
    and "hd (split_sep NEWLINE hs) = []"
  shows "(\<exists>e. recv_until_crlfs L sock = Inl e) \<and>
         (\<forall>kvs c' sock2 t.
            header_dict L [] (drop 1 (split_sep NEWLINE hs)) = Inr kvs \<longrightarrow>
            read_body L kvs c n sock1 = Inr (c', sock2) \<longrightarrow>
            utf8_decode c' = Inr t \<longrightarrow>
            recv_until_crlfs L sock = Inl ValueError)"
proof
  have r: "Request [] kvs t = Inl ValueError" for kvs t
    by (simp add: Request_def split_ws_def)
  show "\<exists>e. recv_until_crlfs L sock = Inl e"
  proof (cases "header_dict L [] (drop 1 (split_sep NEWLINE hs))")
    case (Inl e)
    with assms show ?thesis by (simp add: recv_until_crlfs_def)
  next
    case kvs: (Inr kvs)
    show ?thesis
    proof (cases "read_body L kvs c n sock1")
      case (Inl e)
      with assms kvs show ?thesis by (simp add: recv_until_crlfs_def)
    next
      case (Inr p)
      obtain c' s2 where p: "p = (c', s2)" by (cases p)
      show ?thesis
      proof (cases "utf8_decode c'")
        case (Inl e)
        with assms kvs Inr p show ?thesis by (simp add: recv_until_crlfs_def)
      next
        case t: (Inr t)
        with assms kvs Inr p r show ?thesis by (simp add: recv_until_crlfs_def)
      qed
    qed
  qed
  show "\<forall>kvs c' sock2 t.
          header_dict L [] (drop 1 (split_sep NEWLINE hs)) = Inr kvs \<longrightarrow>
          read_body L kvs c n sock1 = Inr (c', sock2) \<longrightarrow>
          utf8_decode c' = Inr t \<longrightarrow>
          recv_until_crlfs L sock = Inl ValueError"
    using assms r by (simp add: recv_until_crlfs_def)
qed

theorem recv_until_crlfs_empty_start_line_witness:
  "\<forall>L. recv_until_crlfs L
          [CRLF @ ''Host: x'' @ CRLF @ ''Content-Length: 2'' @ HTTP_REQ_HEADER_END @ ''hi'']
        = Inl ValueError"
proof
  fix L
  let ?hd = "CRLF @ ''Host: x'' @ CRLF @ ''Content-Length: 2''"
  let ?hs = "NEWLINE @ S ''Host: x'' @ NEWLINE @ S ''Content-Length: 2''"
  let ?kvs = "[(S ''host'', S '' x''), (S ''content-length'', S '' 2'')]"
  have h1: "read_head L [] [?hd @ HTTP_REQ_HEADER_END @ ''hi''] = Inr (?hd, ''hi'', 2, [])"
    by (simp add: read_head.simps recv_def BUFF_SIZE_def HTTP_REQ_HEADER_END_def CRLF_def)
  have h2: "utf8_decode ?hd = Inr ?hs"
    by (simp add: utf8_decode_def CRLF_def NEWLINE_def S_def)
  have h3: "hd (split_sep NEWLINE ?hs) = []"
    by (simp add: split_sep.simps NEWLINE_def S_def)
  have k: "header_dict L [] (drop 1 (split_sep NEWLINE ?hs)) = Inr ?kvs"
    by (simp add: split_sep.simps NEWLINE_def S_def to_tuple_def split_sep1_def lower_def
        lower_cp_def)
  have b: "read_body L ?kvs ''hi'' 2 [] = Inr (''hi'', [])"
    by (simp add: read_body_def recv_def BUFF_SIZE_def S_def int_of_str_def strip_def
        to_ascii_def is_c_space_def is_digit_def too_many_digits_def)
  have d: "utf8_decode ''hi'' = Inr (S ''hi'')"
    by (simp add: utf8_decode_def S_def)
  from recv_until_crlfs_empty_start_line [OF h1 h2 h3] k b d
  have "recv_until_crlfs L [?hd @ HTTP_REQ_HEADER_END @ ''hi''] = Inl ValueError"
    by blast
  then show "recv_until_crlfs L
          [CRLF @ ''Host: x'' @ CRLF @ ''Content-Length: 2'' @ HTTP_REQ_HEADER_END @ ''hi'']
        = Inl ValueError"
    by simp
qed

section \<open>Encoding text\<close>

lemma utf8_encode_append:
  "utf8_encode (a @ b) = ebind (utf8_encode a) (\<lambda>x. ebind (utf8_encode b) (\<lambda>y. Inr (x @ y)))"
proof (induction a)
  case Nil
  show ?case by (cases "utf8_encode b") simp_all
next
  case (Cons c a)
  show ?case
  proof (cases "utf8_cp c")
    case None
    then show ?thesis by simp
  next
    case (Some bs)
    then show ?thesis
      using Cons.IH by (cases "utf8_encode a"; cases "utf8_encode b") simp_all
  qed
qed

text \<open>An ASCII literal is its own encoding.\<close>

lemma utf8_encode_S:
  "list_all (\<lambda>c. of_char c < (128::nat)) lit \<Longrightarrow> utf8_encode (S lit) = Inr lit"
  by (induction lit) (simp_all add: S_def utf8_cp_def)

lemma S_append: "S a @ S b = S (a @ b)"
  by (simp add: S_def)

lemma NEWLINE_S: "NEWLINE = S CRLF"
  by (simp add: NEWLINE_def S_def CRLF_def)

section \<open>The handlers' responses\<close>

text \<open>
  C4.  A GET request whose path does not contain \<open>redirect\<close> and names no file is answered
  with status 404, the single header \<open>Connection: close\<close> and the contents of \<open>404.html\<close> as
  body.  Nothing is assumed of any mode bits: the file system is arbitrary but for the
  missing path and the readable \<open>404.html\<close>, and \<open>has_permission_other\<close>, which would raise
  on the missing path, is not reached.
\<close>

theorem get_request_not_found:
  assumes "\<not> contains (S ''redirect'') (req_path r)"
    and "fs (req_path r) = None"
    and "fs (S ''404.html'') = Some f"
    and "text_contents f = Inr c"
    and "utf8_encode c = Inr body"
  shows "get_request_builder L fs r =
           Inr \<lparr>headers = [S ''Connection: close''],
                status = Some (S ''HTTP/1.1 404 NOT FOUND''), content = Some body\<rparr> \<and>
         get_request L fs r =
           Inr (''HTTP/1.1 404 NOT FOUND'' @ CRLF @ ''Connection: close'' @ CRLF @ CRLF @ body)"
proof -
  have b: "get_request_builder L fs r =
           Inr \<lparr>headers = [S ''Connection: close''],
                status = Some (S ''HTTP/1.1 404 NOT FOUND''), content = Some body\<rparr>"
    using assms
    by (simp add: get_request_builder_def file_exists_def get_file_contents_def set_status_def
        add_header_def new_builder_def S_append)
  have e: "utf8_encode
             (S ''HTTP/1.1 404 NOT FOUND'' @ NEWLINE @ S ''Connection: close'' @ NEWLINE @ NEWLINE)
           = Inr (''HTTP/1.1 404 NOT FOUND'' @ CRLF @ ''Connection: close'' @ CRLF @ CRLF)"
    by (simp add: NEWLINE_S S_append utf8_encode_S CRLF_def)
  have "build \<lparr>headers = [S ''Connection: close''],
               status = Some (S ''HTTP/1.1 404 NOT FOUND''), content = Some body\<rparr>
        = Inr (''HTTP/1.1 404 NOT FOUND'' @ CRLF @ ''Connection: close'' @ CRLF @ CRLF @ body)"
    unfolding build_def using e by (simp add: CRLF_def)
  with b show ?thesis by (simp add: get_request_def)
qed

theorem get_request_not_found_witness:
  "\<forall>L. get_request L
     (\<lambda>p. if p = S ''404.html''
           then Some \<lparr>st_mode = 0, text_contents = Inr (S ''gone''),
                      binary_contents = Inr ''gone''\<rparr>
           else None)
     \<lparr>req_method = S ''GET'', req_path = S ''x.html'', req_headers = [], req_content = []\<rparr>
   = Inr (''HTTP/1.1 404 NOT FOUND'' @ CRLF @ ''Connection: close'' @ CRLF @ CRLF @ ''gone'')"
proof -
  let ?fs = "\<lambda>p. if p = S ''404.html''
           then Some \<lparr>st_mode = 0, text_contents = Inr (S ''gone''),
                      binary_contents = Inr ''gone''\<rparr>
           else None"
  let ?r = "\<lparr>req_method = S ''GET'', req_path = S ''x.html'', req_headers = [],
             req_content = []\<rparr>"
  have h1: "\<not> contains (S ''redirect'') (req_path ?r)"
    by (simp add: contains_def S_def)
  have h2: "?fs (req_path ?r) = None"
    by (simp add: S_def)
  have h3: "?fs (S ''404.html'') = Some \<lparr>st_mode = 0, text_contents = Inr (S ''gone''),
                      binary_contents = Inr ''gone''\<rparr>"
    by simp
  have h4: "text_contents \<lparr>st_mode = 0, text_contents = Inr (S ''gone''),
                      binary_contents = Inr ''gone''\<rparr> = Inr (S ''gone'')"
    by simp
  have h5: "utf8_encode (S ''gone'') = Inr ''gone''"
    by (simp add: utf8_encode_S)
  show ?thesis using get_request_not_found [OF h1 h2 h3 h4 h5] by simp
qed

lemma parse_post_request_a1_b2:
  "parse_post_request (S ''a=1&b=2'') =
     Inr (S ''<table><tr><td>a</td><td>1</td></tr><tr><td>b</td><td>2</td></tr></table>'')"
  by (simp add: parse_post_request_def split_sep.simps S_def)

lemma str_of_int_73: "str_of_int 73 = S ''73''"
  by (simp add: str_of_int_def str_of_nat.simps S_def)

text \<open>
  C5.  A POST request whose body decodes to \<open>a=1&b=2\<close> is answered with status 200 and the
  table of the two rows (a, 1) and (b, 2), in this order; the \<open>Content-Length\<close> header holds
  73, the number of bytes of the table.
\<close>

theorem post_request_a1_b2:
  assumes "unquote_plus (req_content r) = S ''a=1&b=2''"
  shows "post_request_builder r =
           Inr \<lparr>headers = [S ''Allow: POST'', S ''Content-Length: 73''],
                status = Some (S ''HTTP/1.1 200 OK''),
                content =
                  Some ''<table><tr><td>a</td><td>1</td></tr><tr><td>b</td><td>2</td></tr></table>''\<rparr> \<and>
         post_request r =
           Inr (''HTTP/1.1 200 OK'' @ CRLF @ ''Allow: POST'' @ CRLF @ ''Content-Length: 73''
                @ CRLF @ CRLF @
                ''<table><tr><td>a</td><td>1</td></tr><tr><td>b</td><td>2</td></tr></table>'') \<and>
         length ''<table><tr><td>a</td><td>1</td></tr><tr><td>b</td><td>2</td></tr></table>'' = 73"
proof -
  let ?html = "''<table><tr><td>a</td><td>1</td></tr><tr><td>b</td><td>2</td></tr></table>''"
  have l: "length (S ?html) = 73" by (simp add: S_def)
  have e: "utf8_encode (S ?html) = Inr ?html" by (simp add: utf8_encode_S)
  have b: "post_request_builder r =
           Inr \<lparr>headers = [S ''Allow: POST'', S ''Content-Length: 73''],
                status = Some (S ''HTTP/1.1 200 OK''), content = Some ?html\<rparr>"
    using assms l e
    by (simp add: post_request_builder_def parse_post_request_a1_b2 set_status_def
        add_header_def new_builder_def S_append str_of_int_73)
  have h: "utf8_encode (S ''HTTP/1.1 200 OK'' @ NEWLINE @ S ''Allow: POST'' @ NEWLINE @
             S ''Content-Length: 73'' @ NEWLINE @ NEWLINE)
           = Inr (''HTTP/1.1 200 OK'' @ CRLF @ ''Allow: POST'' @ CRLF @ ''Content-Length: 73''
                  @ CRLF @ CRLF)"
    by (simp add: NEWLINE_S S_append utf8_encode_S CRLF_def)
  have "build \<lparr>headers = [S ''Allow: POST'', S ''Content-Length: 73''],
               status = Some (S ''HTTP/1.1 200 OK''), content = Some ?html\<rparr>
        = Inr (''HTTP/1.1 200 OK'' @ CRLF @ ''Allow: POST'' @ CRLF @ ''Content-Length: 73''
               @ CRLF @ CRLF @ ?html)"
    unfolding build_def using h by (simp add: CRLF_def)
  with b show ?thesis by (simp add: post_request_def)
qed

theorem post_request_a1_b2_witness:
  "post_request \<lparr>req_method = S ''POST'', req_path = S ''form'', req_headers = [],
                 req_content = S ''a=1&b=2''\<rparr> =
     Inr (''HTTP/1.1 200 OK'' @ CRLF @ ''Allow: POST'' @ CRLF @ ''Content-Length: 73''
          @ CRLF @ CRLF @
          ''<table><tr><td>a</td><td>1</td></tr><tr><td>b</td><td>2</td></tr></table>'')"
proof -
  have h: "unquote_plus (req_content \<lparr>req_method = S ''POST'', req_path = S ''form'',
             req_headers = [], req_content = S ''a=1&b=2''\<rparr>) = S ''a=1&b=2''"
    by (simp add: unquote_plus_def unquote_def plus_to_space_def S_def)
  show ?thesis using post_request_a1_b2 [OF h] by simp
qed

lemma quote_plus_cats: "quote_plus (S ''cats'') = Inr (S ''cats'')"
proof -
  have "utf8_encode (S ''cats'') = Inr ''cats''"
    by (simp add: utf8_encode_S)
  then have "quote_plus (S ''cats'') = Inr (concat (map (\<lambda>b. quote_byte (of_char b)) ''cats''))"
    by (simp add: quote_plus_def)
  then show ?thesis
    by (simp add: quote_byte_def always_safe_def S_def)
qed

text \<open>
  C7.  The path \<open>redirect?selector=youtube&selector=google&text=cats\<close> contains \<open>redirect\<close>,
  and its query parameters include \<open>selector=google\<close> and \<open>text=cats\<close>.  The response has
  status 307, but its \<open>Location\<close> is the YouTube search, not the Google one: \<open>build_url\<close>
  reads the first value of \<open>selector\<close>.
\<close>

theorem get_request_redirect_first_selector:
  "\<forall>L fs.
     contains (S ''redirect'') (S ''redirect?selector=youtube&selector=google&text=cats'') \<and>
     url_query L (S ''redirect?selector=youtube&selector=google&text=cats'')
       = Inr (S ''selector=youtube&selector=google&text=cats'') \<and>
     parse_qsl (S ''selector=youtube&selector=google&text=cats'')
       = [(S ''selector'', S ''youtube''), (S ''selector'', S ''google''),
          (S ''text'', S ''cats'')] \<and>
     get_request_builder L fs
       \<lparr>req_method = S ''GET'',
        req_path = S ''redirect?selector=youtube&selector=google&text=cats'',
        req_headers = [], req_content = []\<rparr>
     = Inr \<lparr>headers = [S ''Location: https://www.youtube.com/results?search_query=cats''],
            status = Some (S ''HTTP/1.1 307 Redirect''), content = None\<rparr> \<and>
     \<not> contains (S ''https://www.google.com/search?q=cats'')
         (S ''Location: https://www.youtube.com/results?search_query=cats'')"
proof (intro allI conjI)
  fix L :: pylib and fs :: filesystem
  let ?p = "S ''redirect?selector=youtube&selector=google&text=cats''"
  let ?q = "S ''selector=youtube&selector=google&text=cats''"
  show c: "contains (S ''redirect'') ?p"
    by (simp add: contains_def S_def)
  show q: "url_query L ?p = Inr ?q"
    by (simp add: url_query_def strip_scheme_def split_netloc_def scheme_char_def
        ascii_alpha_def S_def)
  show l: "parse_qsl ?q = [(S ''selector'', S ''youtube''), (S ''selector'', S ''google''),
                          (S ''text'', S ''cats'')]"
    by (simp add: parse_qsl_def split_sep.simps split_sep1_def unquote_def plus_to_space_def
        S_def)
  have t: "get_first (parse_qs ?q) (S ''text'') = Inr (S ''cats'')"
    unfolding parse_qs_def l by (simp add: get_first_def S_def)
  have e: "get_first (parse_qs ?q) (S ''selector'') = Inr (S ''youtube'')"
    unfolding parse_qs_def l by (simp add: get_first_def S_def)
  have u: "build_url L ?p
           = Inr (HStr (S ''https://www.youtube.com/results?search_query=cats''))"
    using q t e by (simp add: build_url_def quote_plus_cats S_append)
  show "get_request_builder L fs
          \<lparr>req_method = S ''GET'', req_path = ?p, req_headers = [], req_content = []\<rparr>
        = Inr \<lparr>headers = [S ''Location: https://www.youtube.com/results?search_query=cats''],
               status = Some (S ''HTTP/1.1 307 Redirect''), content = None\<rparr>"
    using c u
    by (simp add: get_request_builder_def set_status_def add_header_def new_builder_def
        S_append)
  show "\<not> contains (S ''https://www.google.com/search?q=cats'')
            (S ''Location: https://www.youtube.com/results?search_query=cats'')"
    by (simp add: contains_def S_def)
qed

text \<open>
  C7, as the code has it.  A GET request whose path contains \<open>redirect\<close>, whose path
  \<open>urlparse\<close> accepts, and whose query gives \<open>google\<close> as the first value of \<open>selector\<close> and
  \<open>cats\<close> as the first value of \<open>text\<close> is answered with status 307, the \<open>Location\<close> header of
  the Google search for \<open>cats\<close>, and no body: the response ends with the blank line.
\<close>

theorem get_request_redirect_google:
  assumes "contains (S ''redirect'') (req_path r)"
    and "url_query L (req_path r) = Inr q"
    and "get_first (parse_qs q) (S ''selector'') = Inr (S ''google'')"
    and "get_first (parse_qs q) (S ''text'') = Inr (S ''cats'')"
  shows "get_request_builder L fs r =
           Inr \<lparr>headers = [S ''Location: https://www.google.com/search?q=cats''],
                status = Some (S ''HTTP/1.1 307 Redirect''), content = None\<rparr> \<and>
         get_request L fs r =
           Inr (''HTTP/1.1 307 Redirect'' @ CRLF @
                ''Location: https://www.google.com/search?q=cats'' @ CRLF @ CRLF)"
proof -
  have ne: "S ''google'' \<noteq> S ''youtube''" by (simp add: S_def)
  have u: "build_url L (req_path r) = Inr (HStr (S ''https://www.google.com/search?q=cats''))"
    using assms ne by (simp add: build_url_def quote_plus_cats S_append)
  have b: "get_request_builder L fs r =
           Inr \<lparr>headers = [S ''Location: https://www.google.com/search?q=cats''],
                status = Some (S ''HTTP/1.1 307 Redirect''), content = None\<rparr>"
    using assms(1) u
    by (simp add: get_request_builder_def set_status_def add_header_def new_builder_def S_append)
  have e: "utf8_encode (S ''HTTP/1.1 307 Redirect'' @ NEWLINE @
             S ''Location: https://www.google.com/search?q=cats'' @ NEWLINE @ NEWLINE)
           = Inr (''HTTP/1.1 307 Redirect'' @ CRLF @
                ''Location: https://www.google.com/search?q=cats'' @ CRLF @ CRLF)"
    by (simp add: NEWLINE_S S_append utf8_encode_S CRLF_def)
  have "build \<lparr>headers = [S ''Location: https://www.google.com/search?q=cats''],
                status = Some (S ''HTTP/1.1 307 Redirect''), content = None\<rparr>
        = Inr (''HTTP/1.1 307 Redirect'' @ CRLF @
                ''Location: https://www.google.com/search?q=cats'' @ CRLF @ CRLF)"
    unfolding build_def using e by simp
  with b show ?thesis by (simp add: get_request_def)
qed

lemmas url_eval =
  url_query_def strip_scheme_def split_netloc_def parse_qs_def parse_qsl_def split_sep.simps
  split_sep1_def unquote_def plus_to_space_def get_first_def scheme_char_def ascii_alpha_def S_def

theorem get_request_redirect_google_witness:
  "\<forall>L. get_request L (\<lambda>p. None)
     \<lparr>req_method = S ''GET'', req_path = S ''redirect?selector=google&text=cats'',
      req_headers = [], req_content = []\<rparr>
   = Inr (''HTTP/1.1 307 Redirect'' @ CRLF @
          ''Location: https://www.google.com/search?q=cats'' @ CRLF @ CRLF)"
proof -
  let ?r = "\<lparr>req_method = S ''GET'', req_path = S ''redirect?selector=google&text=cats'',
                    req_headers = [], req_content = []\<rparr>"
  have h1: "contains (S ''redirect'') (req_path ?r)"
    by (simp add: contains_def S_def)
  have h2: "url_query L (req_path ?r) = Inr (S ''selector=google&text=cats'')" for L
    by (simp add: url_eval)
  have h3: "get_first (parse_qs (S ''selector=google&text=cats'')) (S ''selector'') = Inr (S ''google'')"
    by (simp add: url_eval)
  have h4: "get_first (parse_qs (S ''selector=google&text=cats'')) (S ''text'') = Inr (S ''cats'')"
    by (simp add: url_eval)
  show ?thesis
    using get_request_redirect_google [OF h1 h2 h3 h4, where fs = "\<lambda>p. None"] by simp
qed

lemma ebind_Inr_iff: "(ebind x f = Inr y) = (\<exists>v. x = Inr v \<and> f v = Inr y)"
  by (cases x) auto

lemma set_content_fields:
  "set_content c b = Inr b' \<Longrightarrow> status b' = status b \<and> headers b' = headers b"
  by (cases c) (auto simp: ebind_Inr_iff)

lemma get_request_builder_200:
  assumes "get_request_builder L fs r = Inr b"
    and "status b = Some (S ''HTTP/1.1 200 OK'')"
  shows "\<exists>n. headers b =
           [S ''Content-Type: '' @ get_file_mime_type (last (split_sep [46] (req_path r))),
            S ''Connection: close'', S ''Content-Length: '' @ str_of_int n]"
  using assms unfolding get_request_builder_def
  by (auto simp: ebind_Inr_iff set_status_def add_header_def new_builder_def S_def
      dest!: set_content_fields split: if_splits)

lemma post_request_builder_fields:
  assumes "post_request_builder r = Inr b"
  shows "status b = Some (S ''HTTP/1.1 200 OK'') \<and>
         (\<exists>n. headers b = [S ''Allow: POST'', S ''Content-Length: '' @ str_of_int n])"
  using assms unfolding post_request_builder_def
  by (auto simp: ebind_Inr_iff set_status_def add_header_def new_builder_def S_def Let_def
      dest!: set_content_fields)

lemmas handler_eval =
  get_request_builder_def post_request_builder_def contains_def file_exists_def
  has_permission_other_def get_file_contents_def get_file_binary_contents_def
  should_return_binary_def binary_type_files_def get_file_mime_type_def mime_types_def
  split_sep.simps set_status_def add_header_def new_builder_def parse_post_request_def
  unquote_plus_def unquote_def plus_to_space_def str_of_int_def str_of_nat.simps utf8_cp_def
  char_of_eq_iff
  S_def

text \<open>
  C6.  The POST handler answers \<open>k=v\<close> with status 200 and the two headers \<open>Allow\<close> and
  \<open>Content-Length\<close>: the claim's \<open>Content-Type\<close> and \<open>Connection\<close> are not among them.
\<close>

theorem post_request_headers_counterexample:
  "post_request_builder
     \<lparr>req_method = S ''POST'', req_path = S ''form'', req_headers = [],
      req_content = S ''k=v''\<rparr>
   = Inr \<lparr>headers = [S ''Allow: POST'', S ''Content-Length: 44''],
          status = Some (S ''HTTP/1.1 200 OK''),
          content = Some ''<table><tr><td>k</td><td>v</td></tr></table>''\<rparr> \<and>
   \<not> has_header (S ''Content-Type'')
       \<lparr>headers = [S ''Allow: POST'', S ''Content-Length: 44''],
        status = Some (S ''HTTP/1.1 200 OK''),
        content = Some ''<table><tr><td>k</td><td>v</td></tr></table>''\<rparr> \<and>
   \<not> has_header (S ''Connection'')
       \<lparr>headers = [S ''Allow: POST'', S ''Content-Length: 44''],
        status = Some (S ''HTTP/1.1 200 OK''),
        content = Some ''<table><tr><td>k</td><td>v</td></tr></table>''\<rparr>"
  by (simp add: handler_eval has_header_def)

text \<open>
  C6, as the code has it.  A response of the GET handler with status 200 carries
  \<open>Content-Type\<close>, \<open>Connection\<close> and \<open>Content-Length\<close>.  A response of the POST handler has
  status 200 and carries \<open>Allow\<close> and \<open>Content-Length\<close>, and neither \<open>Content-Type\<close> nor
  \<open>Connection\<close>.
\<close>

theorem handlers_200_headers:
  "(get_request_builder L fs r = Inr b \<and> status b = Some (S ''HTTP/1.1 200 OK'') \<longrightarrow>
      has_header (S ''Content-Type'') b \<and> has_header (S ''Connection'') b \<and>
      has_header (S ''Content-Length'') b) \<and>
   (post_request_builder r' = Inr b' \<longrightarrow>
      status b' = Some (S ''HTTP/1.1 200 OK'') \<and>
      has_header (S ''Allow'') b' \<and> has_header (S ''Content-Length'') b' \<and>
      \<not> has_header (S ''Content-Type'') b' \<and> \<not> has_header (S ''Connection'') b')"
proof (intro conjI impI)
  assume a: "get_request_builder L fs r = Inr b \<and> status b = Some (S ''HTTP/1.1 200 OK'')"
  then obtain n where h: "headers b =
           [S ''Content-Type: '' @ get_file_mime_type (last (split_sep [46] (req_path r))),
            S ''Connection: close'', S ''Content-Length: '' @ str_of_int n]"
    using get_request_builder_200 by blast
  show "has_header (S ''Content-Type'') b" by (simp add: has_header_def h S_def)
  show "has_header (S ''Connection'') b" by (simp add: has_header_def h S_def)
  show "has_header (S ''Content-Length'') b" by (simp add: has_header_def h S_def)
next
  assume a: "post_request_builder r' = Inr b'"
  from post_request_builder_fields [OF a] obtain n where
    st: "status b' = Some (S ''HTTP/1.1 200 OK'')" and
    h: "headers b' = [S ''Allow: POST'', S ''Content-Length: '' @ str_of_int n]"
    by blast
  show "status b' = Some (S ''HTTP/1.1 200 OK'')" by (rule st)
  show "has_header (S ''Allow'') b'" by (simp add: has_header_def h S_def)
  show "has_header (S ''Content-Length'') b'" by (simp add: has_header_def h S_def)
  show "\<not> has_header (S ''Content-Type'') b'" by (simp add: has_header_def h S_def)
  show "\<not> has_header (S ''Connection'') b'" by (simp add: has_header_def h S_def)
qed


theorem handlers_200_headers_witness:
  "\<forall>L.
     get_request_builder L
       (\<lambda>p. if p = S ''a.txt''
             then Some \<lparr>st_mode = 420, text_contents = Inr (S ''hi''),
                        binary_contents = Inr ''hi''\<rparr>
             else None)
       \<lparr>req_method = S ''GET'', req_path = S ''a.txt'', req_headers = [], req_content = []\<rparr>
     = Inr \<lparr>headers = [S ''Content-Type: text/plain'', S ''Connection: close'',
                        S ''Content-Length: 2''],
            status = Some (S ''HTTP/1.1 200 OK''), content = Some ''hi''\<rparr> \<and>
     has_header (S ''Content-Type'')
       \<lparr>headers = [S ''Content-Type: text/plain'', S ''Connection: close'',
                   S ''Content-Length: 2''],
        status = Some (S ''HTTP/1.1 200 OK''), content = Some ''hi''\<rparr> \<and>
     has_header (S ''Connection'')
       \<lparr>headers = [S ''Content-Type: text/plain'', S ''Connection: close'',
                   S ''Content-Length: 2''],
        status = Some (S ''HTTP/1.1 200 OK''), content = Some ''hi''\<rparr> \<and>
     has_header (S ''Content-Length'')
       \<lparr>headers = [S ''Content-Type: text/plain'', S ''Connection: close'',
                   S ''Content-Length: 2''],
        status = Some (S ''HTTP/1.1 200 OK''), content = Some ''hi''\<rparr> \<and>
     post_request_builder
       \<lparr>req_method = S ''POST'', req_path = S ''form'', req_headers = [],
        req_content = S ''x=y''\<rparr>
     = Inr \<lparr>headers = [S ''Allow: POST'', S ''Content-Length: 44''],
            status = Some (S ''HTTP/1.1 200 OK''),
            content = Some ''<table><tr><td>x</td><td>y</td></tr></table>''\<rparr> \<and>
     \<not> has_header (S ''Content-Type'')
       \<lparr>headers = [S ''Allow: POST'', S ''Content-Length: 44''],
        status = Some (S ''HTTP/1.1 200 OK''),
        content = Some ''<table><tr><td>x</td><td>y</td></tr></table>''\<rparr> \<and>
     \<not> has_header (S ''Connection'')
       \<lparr>headers = [S ''Allow: POST'', S ''Content-Length: 44''],
        status = Some (S ''HTTP/1.1 200 OK''),
        content = Some ''<table><tr><td>x</td><td>y</td></tr></table>''\<rparr>"
proof
  fix L
  let ?fs = "\<lambda>p. if p = S ''a.txt''
                then Some \<lparr>st_mode = 420, text_contents = Inr (S ''hi''),
                           binary_contents = Inr ''hi''\<rparr>
                else None"
  let ?r = "\<lparr>req_method = S ''GET'', req_path = S ''a.txt'', req_headers = [],
             req_content = []\<rparr>"
  let ?b = "\<lparr>headers = [S ''Content-Type: text/plain'', S ''Connection: close'',
                 S ''Content-Length: 2''],
      status = Some (S ''HTTP/1.1 200 OK''), content = Some ''hi''\<rparr>"
  let ?r' = "\<lparr>req_method = S ''POST'', req_path = S ''form'', req_headers = [],
              req_content = S ''x=y''\<rparr>"
  let ?b' = "\<lparr>headers = [S ''Allow: POST'', S ''Content-Length: 44''],
      status = Some (S ''HTTP/1.1 200 OK''),
      content = Some ''<table><tr><td>x</td><td>y</td></tr></table>''\<rparr>"
  have g: "get_request_builder L ?fs ?r = Inr ?b"
    by (simp add: handler_eval)
  have s: "status ?b = Some (S ''HTTP/1.1 200 OK'')"
    by simp
  have p: "post_request_builder ?r' = Inr ?b'"
    by (simp add: handler_eval)
  from handlers_200_headers
         [where L = L and fs = "?fs" and r = "?r" and b = "?b" and r' = "?r'" and b' = "?b'"]
       g s p
  show "get_request_builder L ?fs ?r = Inr ?b \<and>
        has_header (S ''Content-Type'') ?b \<and> has_header (S ''Connection'') ?b \<and>
        has_header (S ''Content-Length'') ?b \<and>
        post_request_builder ?r' = Inr ?b' \<and>
        \<not> has_header (S ''Content-Type'') ?b' \<and> \<not> has_header (S ''Connection'') ?b'"
    by blast
qed

lemma utf8_encode_ascii: "list_all (\<lambda>c. c < 128) s \<Longrightarrow> utf8_encode s = Inr (map char_of s)"
  by (induction s) (simp_all add: utf8_cp_def)

lemma mime_types_ascii: "list_all (\<lambda>(k, v). list_all (\<lambda>c. c < 128) v) mime_types"
  by (simp add: mime_types_def S_def)

lemma get_file_mime_type_ascii: "list_all (\<lambda>c. c < 128) (get_file_mime_type ext)"
proof (cases "map_of mime_types ext")
  case None
  then show ?thesis by (simp add: get_file_mime_type_def S_def)
next
  case (Some m)
  then have "(ext, m) \<in> set mime_types" by (rule map_of_SomeD)
  with mime_types_ascii have "list_all (\<lambda>c. c < 128) m"
    by (auto simp: list_all_iff)
  with Some show ?thesis by (simp add: get_file_mime_type_def)
qed

lemma build_content_empty: "build (b\<lparr>content := Some []\<rparr>) = build (b\<lparr>content := None\<rparr>)"
  by (simp add: build_def split: option.split)

text \<open>
  C10.  \<open>set_content\<close> with an empty string or with empty bytes leaves a builder whose
  \<open>build\<close> returns the bytes it returns with no content set: the body is left out.  So
  a GET request for a file that exists, is readable by others and is empty is answered
  with status 200, the header \<open>Content-Length: 0\<close>, and nothing after the blank line.
\<close>

theorem get_request_empty_file:
  assumes "\<not> contains (S ''redirect'') (req_path r)"
    and "fs (req_path r) = Some f"
    and "0 < (4 AND st_mode f)"
    and "text_contents f = Inr []"
    and "binary_contents f = Inr []"
  shows "set_content (Text []) b = Inr (b\<lparr>content := Some []\<rparr>) \<and>
         set_content (Bytes []) b = Inr (b\<lparr>content := Some []\<rparr>) \<and>
         build (b\<lparr>content := Some []\<rparr>) = build (b\<lparr>content := None\<rparr>) \<and>
         get_request_builder L fs r =
           Inr \<lparr>headers =
                  [S ''Content-Type: '' @ get_file_mime_type (last (split_sep [46] (req_path r))),
                   S ''Connection: close'', S ''Content-Length: 0''],
                status = Some (S ''HTTP/1.1 200 OK''), content = Some []\<rparr> \<and>
         get_request L fs r =
           Inr (''HTTP/1.1 200 OK'' @ CRLF @ ''Content-Type: '' @
                map char_of (get_file_mime_type (last (split_sep [46] (req_path r)))) @ CRLF @
                ''Connection: close'' @ CRLF @ ''Content-Length: 0'' @ CRLF @ CRLF)"
proof -
  let ?m = "get_file_mime_type (last (split_sep [46] (req_path r)))"
  let ?b = "\<lparr>headers = [S ''Content-Type: '' @ ?m, S ''Connection: close'',
                        S ''Content-Length: 0''],
             status = Some (S ''HTTP/1.1 200 OK''), content = Some []\<rparr>"
  have z: "str_of_int 0 = S ''0''"
    by (simp add: str_of_int_def str_of_nat.simps S_def)
  have g: "get_request_builder L fs r = Inr ?b"
    using assms z
    by (simp add: get_request_builder_def file_exists_def has_permission_other_def
        get_file_contents_def get_file_binary_contents_def set_status_def add_header_def
        new_builder_def S_append)
  have m: "utf8_encode ?m = Inr (map char_of ?m)"
    by (rule utf8_encode_ascii [OF get_file_mime_type_ascii])
  have e: "utf8_encode (S ''HTTP/1.1 200 OK'' @ NEWLINE @ (S ''Content-Type: '' @ ?m) @ NEWLINE @
             S ''Connection: close'' @ NEWLINE @ S ''Content-Length: 0'' @ NEWLINE @ NEWLINE)
           = Inr (''HTTP/1.1 200 OK'' @ CRLF @ ''Content-Type: '' @ map char_of ?m @ CRLF @
                ''Connection: close'' @ CRLF @ ''Content-Length: 0'' @ CRLF @ CRLF)"
    by (simp add: utf8_encode_append m NEWLINE_S utf8_encode_S CRLF_def)
  have "build ?b = Inr (''HTTP/1.1 200 OK'' @ CRLF @ ''Content-Type: '' @ map char_of ?m @ CRLF @
                ''Connection: close'' @ CRLF @ ''Content-Length: 0'' @ CRLF @ CRLF)"
    unfolding build_def using e by simp
  with g have "get_request L fs r =
           Inr (''HTTP/1.1 200 OK'' @ CRLF @ ''Content-Type: '' @ map char_of ?m @ CRLF @
                ''Connection: close'' @ CRLF @ ''Content-Length: 0'' @ CRLF @ CRLF)"
    by (simp add: get_request_def)
  with g show ?thesis by (simp add: build_content_empty)
qed

theorem get_request_empty_file_witness:
  "\<forall>L. get_request L
     (\<lambda>p. if p = S ''empty.css''
           then Some \<lparr>st_mode = 420, text_contents = Inr [], binary_contents = Inr []\<rparr>
           else None)
     \<lparr>req_method = S ''GET'', req_path = S ''empty.css'', req_headers = [], req_content = []\<rparr>
   = Inr (''HTTP/1.1 200 OK'' @ CRLF @ ''Content-Type: text/css'' @ CRLF @
          ''Connection: close'' @ CRLF @ ''Content-Length: 0'' @ CRLF @ CRLF)"
proof -
  let ?f = "\<lparr>st_mode = 420, text_contents = Inr [], binary_contents = Inr []\<rparr>"
  let ?fs = "\<lambda>p. if p = S ''empty.css'' then Some ?f else None"
  let ?r = "\<lparr>req_method = S ''GET'', req_path = S ''empty.css'', req_headers = [],
             req_content = []\<rparr>"
  have h1: "\<not> contains (S ''redirect'') (req_path ?r)"
    by (simp add: contains_def S_def)
  have h2: "?fs (req_path ?r) = Some ?f" by simp
  have h3: "0 < (4 AND st_mode ?f)" by simp
  have h4: "text_contents ?f = Inr []" by simp
  have h5: "binary_contents ?f = Inr []" by simp
  have m: "map char_of (get_file_mime_type (last (split_sep [46] (req_path ?r)))) = ''text/css''"
    by (simp add: split_sep.simps get_file_mime_type_def mime_types_def S_def char_of_eq_iff)
  show ?thesis
    using get_request_empty_file [where fs = "?fs" and r = "?r" and f = "?f", OF h1 h2 h3 h4 h5] m
    by simp
qed

section \<open>The bytes that \<open>build\<close> returns\<close>






























section \<open>Further properties of the framer\<close>

lemma to_tuple_Inr:
  assumes "to_tuple L l = Inr (k, v)"
  shows "\<exists>i. find_sub [58] l = Some i \<and> k = lower L (take i l) \<and> v = drop (i + 1) l"
  using assms by (auto simp: to_tuple_def split_sep1_def split: option.splits)

lemma set_update_subset:
  "(k, v) \<in> set (AList.update k' v' d) \<Longrightarrow> (k, v) \<in> set d \<or> (k, v) = (k', v')"
  by (induction d) (auto split: if_splits)

lemma header_dict_entries:
  assumes "header_dict L d ls = Inr kvs" "(k, v) \<in> set kvs"
  shows "(k, v) \<in> set d \<or> (\<exists>l \<in> set ls. to_tuple L l = Inr (k, v))"
  using assms
proof (induction ls arbitrary: d)
  case Nil
  then show ?case by simp
next
  case (Cons l ls)
  from Cons.prems(1) obtain k' v' where
    t: "to_tuple L l = Inr (k', v')" and r: "header_dict L (AList.update k' v' d) ls = Inr kvs"
    by (auto simp: ebind_Inr_iff)
  from Cons.IH [OF r Cons.prems(2)] show ?case
  proof
    assume "(k, v) \<in> set (AList.update k' v' d)"
    then have "(k, v) \<in> set d \<or> (k, v) = (k', v')"
      by (rule set_update_subset)
    with t show ?thesis by auto
  next
    assume "\<exists>l \<in> set ls. to_tuple L l = Inr (k, v)"
    then show ?thesis by auto
  qed
qed

lemma lower_ascii:
  "list_all (\<lambda>c. c < 128) s \<Longrightarrow>
   lower L s = map lower_cp s \<and> list_all (\<lambda>c. \<not> (65 \<le> c \<and> c \<le> 90)) (lower L s)"
  by (auto simp: lower_def lower_cp_def list_all_iff)

text \<open>
  Every entry of the header dictionary comes from a header line cut at its first colon: the
  key is the lower-cased text before the colon, the value is everything after that colon.
  When the text before the colon is ASCII, the key holds none of the letters A to Z.
\<close>

theorem header_dict_keys_lower:
  assumes "header_dict L [] ls = Inr kvs" and "(k, v) \<in> set kvs"
  shows "\<exists>l i. l \<in> set ls \<and> find_sub [58] l = Some i \<and> k = lower L (take i l) \<and>
               v = drop (i + 1) l \<and>
               (list_all (\<lambda>c. c < 128) (take i l) \<longrightarrow>
                  list_all (\<lambda>c. \<not> (65 \<le> c \<and> c \<le> 90)) k)"
proof -
  from header_dict_entries [OF assms] obtain l where
    l: "l \<in> set ls" "to_tuple L l = Inr (k, v)"
    by auto
  from to_tuple_Inr [OF l(2)] obtain i where
    i: "find_sub [58] l = Some i" "k = lower L (take i l)" "v = drop (i + 1) l"
    by blast
  with l(1) lower_ascii [of "take i l" L] show ?thesis by blast
qed

theorem header_dict_keys_lower_witness:
  "\<forall>L. \<exists>l i. l \<in> set [S ''Host: h:80''] \<and> find_sub [58] l = Some i \<and>
              S ''host'' = lower L (take i l) \<and> S '' h:80'' = drop (i + 1) l \<and>
              (list_all (\<lambda>c. c < 128) (take i l) \<longrightarrow>
                 list_all (\<lambda>c. \<not> (65 \<le> c \<and> c \<le> 90)) (S ''host''))"
proof
  fix L
  have h1: "header_dict L [] [S ''Host: h:80''] = Inr [(S ''host'', S '' h:80'')]"
    by (simp add: to_tuple_def split_sep1_def S_def lower_def lower_cp_def)
  have h2: "(S ''host'', S '' h:80'') \<in> set [(S ''host'', S '' h:80'')]"
    by simp
  show "\<exists>l i. l \<in> set [S ''Host: h:80''] \<and> find_sub [58] l = Some i \<and>
              S ''host'' = lower L (take i l) \<and> S '' h:80'' = drop (i + 1) l \<and>
              (list_all (\<lambda>c. c < 128) (take i l) \<longrightarrow>
                 list_all (\<lambda>c. \<not> (65 \<le> c \<and> c \<le> 90)) (S ''host''))"
    using header_dict_keys_lower [OF h1 h2] .
qed

lemma recv_whole:
  "c \<noteq> [] \<Longrightarrow> length c \<le> BUFF_SIZE \<Longrightarrow> recv L BUFF_SIZE (c # cs) = Inr (c, cs)"
  by (simp add: recv_def BUFF_SIZE_def)

lemma read_head_accumulates:
  assumes "list_all (\<lambda>c. c \<noteq> [] \<and> length c \<le> BUFF_SIZE \<and>
                         find_sub HTTP_REQ_HEADER_END c = None) segs"
    and "length c \<le> BUFF_SIZE"
    and "find_sub HTTP_REQ_HEADER_END c = Some i"
  shows "read_head L h (segs @ c # rest) =
           Inr (h @ concat segs @ take i c, drop (i + 4) c, length c - (i + 4), rest)"
  using assms(1)
proof (induction segs arbitrary: h)
  case Nil
  have "c \<noteq> []"
    using assms(3) by (auto simp: HTTP_REQ_HEADER_END_def)
  then have "recv L BUFF_SIZE (c # rest) = Inr (c, rest)"
    using assms(2) by (rule recv_whole)
  moreover from find_sub_bound [OF assms(3)] have "i + 4 \<le> length c"
    by (simp add: HTTP_REQ_HEADER_END_def)
  ultimately show ?case
    using \<open>c \<noteq> []\<close> assms(3) by (subst read_head.simps) (simp add: nat_diff_distrib')
next
  case (Cons s segs)
  then have s: "s \<noteq> []" "length s \<le> BUFF_SIZE" "find_sub HTTP_REQ_HEADER_END s = None"
    and segs: "list_all (\<lambda>c. c \<noteq> [] \<and> length c \<le> BUFF_SIZE \<and>
                         find_sub HTTP_REQ_HEADER_END c = None) segs"
    by simp_all
  have "recv L BUFF_SIZE (s # segs @ c # rest) = Inr (s, segs @ c # rest)"
    using s(1,2) by (rule recv_whole)
  then have "read_head L h ((s # segs) @ c # rest) = read_head L (h @ s) (segs @ c # rest)"
    using s by (subst read_head.simps) simp
  with Cons.IH [OF segs, of "h @ s"] show ?case by simp
qed

text \<open>
  Segments without a terminator are accumulated in \<open>header_data\<close>, so a start line that
  arrives in pieces is whole again when a segment brings the terminator; the bytes after the
  terminator in that segment are the content read so far.
\<close>

theorem read_head_fragments:
  assumes "list_all (\<lambda>c. c \<noteq> [] \<and> length c \<le> BUFF_SIZE \<and>
                         find_sub HTTP_REQ_HEADER_END c = None) segs"
    and "length c \<le> BUFF_SIZE"
    and "find_sub HTTP_REQ_HEADER_END c = Some i"
  shows "read_head L [] (segs @ c # rest) =
           Inr (concat segs @ take i c, drop (i + 4) c, length c - (i + 4), rest)"
  using read_head_accumulates [OF assms, of L "[]" rest] by simp

theorem read_head_fragments_witness:
  "\<forall>L. read_head L []
          ([''GE'', ''T /a HT''] @ (''TP/1.1'' @ HTTP_REQ_HEADER_END @ ''x'') # [''y''])
        = Inr (concat [''GE'', ''T /a HT''] @ take 6 (''TP/1.1'' @ HTTP_REQ_HEADER_END @ ''x''),
               drop (6 + 4) (''TP/1.1'' @ HTTP_REQ_HEADER_END @ ''x''),
               length (''TP/1.1'' @ HTTP_REQ_HEADER_END @ ''x'') - (6 + 4), [''y''])"
proof
  fix L
  have h1: "list_all (\<lambda>c. c \<noteq> [] \<and> length c \<le> BUFF_SIZE \<and>
                         find_sub HTTP_REQ_HEADER_END c = None) [''GE'', ''T /a HT'']"
    by (simp add: BUFF_SIZE_def HTTP_REQ_HEADER_END_def)
  have h2: "length (''TP/1.1'' @ HTTP_REQ_HEADER_END @ ''x'') \<le> BUFF_SIZE"
    by (simp add: BUFF_SIZE_def HTTP_REQ_HEADER_END_def)
  have h3: "find_sub HTTP_REQ_HEADER_END (''TP/1.1'' @ HTTP_REQ_HEADER_END @ ''x'') = Some 6"
    by (simp add: HTTP_REQ_HEADER_END_def)
  show "read_head L []
          ([''GE'', ''T /a HT''] @ (''TP/1.1'' @ HTTP_REQ_HEADER_END @ ''x'') # [''y''])
        = Inr (concat [''GE'', ''T /a HT''] @ take 6 (''TP/1.1'' @ HTTP_REQ_HEADER_END @ ''x''),
               drop (6 + 4) (''TP/1.1'' @ HTTP_REQ_HEADER_END @ ''x''),
               length (''TP/1.1'' @ HTTP_REQ_HEADER_END @ ''x'') - (6 + 4), [''y''])"
    using read_head_fragments [OF h1 h2 h3] .
qed

text \<open>
  When the read that brings the terminator brings at least one byte of the body and the
  headers declare a length, the framer issues one further read, of the declared length minus
  the bytes it has (at least 0), and the body of the request is the bytes it had followed
  by what that read returns.
\<close>

theorem recv_until_crlfs_content_length:
  assumes "recv L BUFF_SIZE sock = Inr (data, sock1)"
    and "find_sub HTTP_REQ_HEADER_END data = Some i"
    and "i + 4 < length data"
    and "utf8_decode (take i data) = Inr hs"
    and "split_sep NEWLINE hs = start # ls"
    and "header_dict L [] ls = Inr kvs"
    and "map_of kvs (S ''content-length'') = Some v"
    and "int_of_str L v = Inr n"
    and "recv L (nat (max 0 (n - int (length data - (i + 4))))) sock1 = Inr (extra, sock2)"
    and "utf8_decode (drop (i + 4) data @ extra) = Inr body"
    and "split_ws start = m # p # rest"
  shows "recv_until_crlfs L sock =
           Inr \<lparr>req_method = m, req_path = drop 1 p, req_headers = kvs, req_content = body\<rparr>"
proof -
  have d: "data \<noteq> []" using assms(3) by auto
  have n: "nat (max 0 (int (length data) - int i - 4)) = length data - (i + 4)"
    using assms(3) by simp
  have h: "read_head L [] sock =
             Inr (take i data, drop (i + 4) data, length data - (i + 4), sock1)"
    using assms(1,2) d n by (subst read_head.simps) simp
  have b: "read_body L kvs (drop (i + 4) data) (length data - (i + 4)) sock1 =
             Inr (drop (i + 4) data @ extra, sock2)"
    using assms(3,7,8,9) by (simp add: read_body_def)
  show ?thesis
    using h b assms(4,5,6,10,11) by (simp add: recv_until_crlfs_def Request_def)
qed

theorem recv_until_crlfs_content_length_witness:
  "\<forall>L. recv_until_crlfs L
          [''POST /f HTTP/1.1'' @ CRLF @ ''Content-Length: 5'' @ HTTP_REQ_HEADER_END @ ''he'',
           ''llo'']
        = Inr \<lparr>req_method = S ''POST'', req_path = drop 1 (S ''/f''),
               req_headers = [(S ''content-length'', S '' 5'')], req_content = S ''hello''\<rparr>"
proof
  fix L
  let ?data = "''POST /f HTTP/1.1'' @ CRLF @ ''Content-Length: 5'' @ HTTP_REQ_HEADER_END @ ''he''"
  have h1: "recv L BUFF_SIZE [?data, ''llo''] = Inr (?data, [''llo''])"
    by (simp add: recv_def BUFF_SIZE_def CRLF_def HTTP_REQ_HEADER_END_def)
  have h2: "find_sub HTTP_REQ_HEADER_END ?data = Some 35"
    by (simp add: CRLF_def HTTP_REQ_HEADER_END_def)
  have h3: "35 + 4 < length ?data"
    by (simp add: CRLF_def HTTP_REQ_HEADER_END_def)
  have h4: "utf8_decode (take 35 ?data) = Inr (S ''POST /f HTTP/1.1'' @ NEWLINE @ S ''Content-Length: 5'')"
    by (simp add: utf8_decode_def CRLF_def HTTP_REQ_HEADER_END_def NEWLINE_def S_def)
  have h5: "split_sep NEWLINE (S ''POST /f HTTP/1.1'' @ NEWLINE @ S ''Content-Length: 5'')
            = S ''POST /f HTTP/1.1'' # [S ''Content-Length: 5'']"
    by (simp add: split_sep.simps NEWLINE_def S_def)
  have h6: "header_dict L [] [S ''Content-Length: 5''] = Inr [(S ''content-length'', S '' 5'')]"
    by (simp add: to_tuple_def split_sep1_def S_def lower_def lower_cp_def)
  have h7: "map_of [(S ''content-length'', S '' 5'')] (S ''content-length'') = Some (S '' 5'')"
    by simp
  have h8: "int_of_str L (S '' 5'') = Inr 5"
    by (simp add: int_of_str_def strip_def to_ascii_def is_c_space_def is_digit_def
        too_many_digits_def S_def)
  have h9: "recv L (nat (max 0 (5 - int (length ?data - (35 + 4))))) [''llo'']
            = Inr (''llo'', [])"
    by (simp add: recv_def BUFF_SIZE_def CRLF_def HTTP_REQ_HEADER_END_def)
  have h10: "utf8_decode (drop (35 + 4) ?data @ ''llo'') = Inr (S ''hello'')"
    by (simp add: utf8_decode_def CRLF_def HTTP_REQ_HEADER_END_def S_def)
  have h11: "split_ws (S ''POST /f HTTP/1.1'') = S ''POST'' # S ''/f'' # [S ''HTTP/1.1'']"
    by (simp add: split_ws_def is_space_def S_def)
  show "recv_until_crlfs L
          [''POST /f HTTP/1.1'' @ CRLF @ ''Content-Length: 5'' @ HTTP_REQ_HEADER_END @ ''he'',
           ''llo'']
        = Inr \<lparr>req_method = S ''POST'', req_path = drop 1 (S ''/f''),
               req_headers = [(S ''content-length'', S '' 5'')], req_content = S ''hello''\<rparr>"
    using recv_until_crlfs_content_length [OF h1 h2 h3 h4 h5 h6 h7 h8 h9 h10 h11] .
qed

end
